theory Spec2Isabelle
  imports Main
begin

section \<open>JavaScript values shared by the embedding\<close>

text \<open>
  A thrown JavaScript error: the name of its class and its message.
  \<open>new Error(msg)\<close> has the name \<open>Error\<close>.
\<close>

datatype js_error = JsError (err_name: string) (message: string)

definition new_Error :: "string \<Rightarrow> js_error" where
  "new_Error msg = JsError ''Error'' msg"

fun first_some :: "('a \<Rightarrow> 'b option) \<Rightarrow> 'a list \<Rightarrow> 'b option" where
  "first_some f [] = None"
| "first_some f (x # xs) = (case f x of Some y \<Rightarrow> Some y | None \<Rightarrow> first_some f xs)"

section \<open>github.ts: parseRepo\<close>

text \<open>
  \<open>s.replace(/suf$/, "")\<close> for a literal \<open>suf\<close>: the pattern is anchored at the
  end of the input, so the only possible match is a trailing \<open>suf\<close>.
\<close>

definition ends_with :: "string \<Rightarrow> string \<Rightarrow> bool" where
  "ends_with s suf = (length suf \<le> length s \<and> drop (length s - length suf) s = suf)"

definition strip_end :: "string \<Rightarrow> string \<Rightarrow> string" where
  "strip_end suf s = (if ends_with s suf then take (length s - length suf) s else s)"

text \<open>
  The pattern \<open>/(?:github\.com\/)?([^/]+)\/([^/]+)$/\<close>, as a backtracking matcher
  runs it. A greedy \<open>[^/]+\<close> at the front of \<open>t\<close> first takes the longest run of
  characters other than the slash and then gives characters back one at a time, down to
  one character.
\<close>

definition not_slash :: "char \<Rightarrow> bool" where
  "not_slash c = (c \<noteq> CHR ''/'')"

definition greedy_lengths :: "string \<Rightarrow> nat list" where
  "greedy_lengths t = rev [1..<Suc (length (takeWhile not_slash t))]"

text \<open>\<open>([^/]+)$\<close> at the front of \<open>r\<close>.\<close>

definition match_repo_end :: "string \<Rightarrow> string option" where
  "match_repo_end r =
     first_some (\<lambda>m. if drop m r = [] then Some (take m r) else None) (greedy_lengths r)"

text \<open>\<open>([^/]+)\/([^/]+)$\<close> at the front of \<open>t\<close>.\<close>

definition match_owner_repo :: "string \<Rightarrow> (string \<times> string) option" where
  "match_owner_repo t =
     first_some
       (\<lambda>j. case drop j t of
              [] \<Rightarrow> None
            | c # r \<Rightarrow>
                if c = CHR ''/'' then map_option (Pair (take j t)) (match_repo_end r)
                else None)
       (greedy_lengths t)"

text \<open>
  The whole pattern at the front of \<open>t\<close>: the optional group is tried first, and
  skipped when the rest does not match after it.
\<close>

definition match_at :: "string \<Rightarrow> (string \<times> string) option" where
  "match_at t =
     (case (if take 11 t = ''github.com/'' then match_owner_repo (drop 11 t) else None) of
        Some m \<Rightarrow> Some m
      | None \<Rightarrow> match_owner_repo t)"

text \<open>\<open>cleaned.match(...)\<close>: the leftmost start position at which the pattern matches.\<close>

definition regex_match :: "string \<Rightarrow> (string \<times> string) option" where
  "regex_match s = first_some (\<lambda>i. match_at (drop i s)) [0..<Suc (length s)]"

definition cleaned :: "string \<Rightarrow> string" where
  "cleaned input = strip_end ''/'' (strip_end ''.git'' input)"

text \<open>The result \<open>{ owner, repo }\<close> is the pair \<open>(owner, repo)\<close>.\<close>

definition parseRepo :: "string \<Rightarrow> js_error + (string \<times> string)" where
  "parseRepo input =
     (case regex_match (cleaned input) of
        None \<Rightarrow> Inl (new_Error ''Invalid repo format. Use owner/repo or a GitHub URL.'')
      | Some m \<Rightarrow> Inr m)"

text \<open>
  The reading of the result that the specification gives: the input is cut at every
  slash, and the last two pieces are the owner and the repository, both nonempty.
\<close>

fun split_slash :: "string \<Rightarrow> string list" where
  "split_slash [] = [[]]"
| "split_slash (c # cs) =
     (if c = CHR ''/'' then [] # split_slash cs
      else (case split_slash cs of [] \<Rightarrow> [[c]] | x # xs \<Rightarrow> (c # x) # xs))"

definition last_two_segments :: "string \<Rightarrow> (string \<times> string) option" where
  "last_two_segments s =
     (let segs = split_slash s in
      if 2 \<le> length segs \<and> last (butlast segs) \<noteq> [] \<and> last segs \<noteq> []
      then Some (last (butlast segs), last segs) else None)"

section \<open>github.ts: the REST calls\<close>

record RepoFile =
  rf_name :: string
  rf_path :: string
  rf_sha :: string
  rf_type :: string

record FileContent =
  fc_content :: string
  fc_sha :: string
  fc_path :: string
  fc_encoding :: string

record CommitResult =
  cr_sha :: string
  cr_html_url :: string

text \<open>
  The answer of the GitHub contents API to a write: the member \<open>content\<close> describes the
  file as written, with its new \<open>sha\<close>, and the member \<open>commit\<close> describes the commit
  that wrote it, with the commit's own \<open>sha\<close> and its \<open>html_url\<close>.
\<close>

record written =
  content_sha :: string
  commit :: CommitResult

text \<open>
  What \<open>res.json()\<close> gives for a response. The code reads the members \<open>content\<close>,
  \<open>sha\<close>, \<open>path\<close>, \<open>encoding\<close>, \<open>commit\<close> and \<open>message\<close> of the value, and a value is
  told here by which of them it has:
  \<^item> \<open>JArray\<close>: an array of directory entries (an array has none of the members);
  \<^item> \<open>JFile\<close>: an object with the strings \<open>content\<close> (as transported), \<open>sha\<close>, \<open>path\<close>
    and \<open>encoding\<close>, and neither \<open>commit\<close> nor \<open>message\<close>;
  \<^item> \<open>JWritten\<close>: the answer to a write, with \<open>content\<close> (an object) and \<open>commit\<close> (whose
    \<open>sha\<close> and \<open>html_url\<close> are strings), and no \<open>message\<close>;
  \<^item> \<open>JMessage m\<close>: an object with the string \<open>m\<close> as \<open>message\<close>, as the store sends
    with a rejection, and neither \<open>content\<close> nor \<open>commit\<close>;
  \<^item> \<open>JNull\<close>: the value \<open>null\<close>, of which no member can be read;
  \<^item> \<open>JOther\<close>: any other value but \<open>null\<close> that has none of the members, such as
    \<open>{}\<close> or a number;
  \<^item> \<open>JInvalid e\<close>: the body is not JSON, and \<open>res.json()\<close> rejects with \<open>e\<close>.

  Values with a \<open>message\<close> that is not a string, or with a \<open>commit\<close> whose \<open>sha\<close> is not
  a string, are not among the responses of this model.
\<close>

datatype json =
    JArray "RepoFile list"
  | JFile FileContent
  | JWritten written
  | JMessage string
  | JNull
  | JOther
  | JInvalid js_error

record response =
  ok :: bool
  status :: nat
  json :: json

record put_body =
  pb_message :: string
  pb_content :: string
  pb_sha :: "string option"

record request =
  req_url :: string
  req_method :: string
  req_headers :: "(string \<times> string) list"
  req_body :: "put_body option"

text \<open>
  The platform the code runs on: \<open>fetch\<close> (which rejects with an error or resolves
  with a response), the base64 functions \<open>atob\<close> and \<open>btoa\<close>.
\<close>

type_synonym fetch = "request \<Rightarrow> js_error + response"

text \<open>
  A string is a list of code units below 256 here (what \<open>atob\<close> gives; larger code units
  are not among the inputs of this model). \<open>unescape(encodeURIComponent(s))\<close> gives the
  bytes of the UTF-8 encoding of \<open>s\<close>: a code unit below 128 stays, every other one
  becomes two bytes.
\<close>

definition utf8_bytes :: "string \<Rightarrow> string" where
  "utf8_bytes s =
     concat (map (\<lambda>c. if (of_char c :: nat) < 128 then [c]
                        else [char_of (192 + (of_char c :: nat) div 64),
                              char_of (128 + (of_char c :: nat) mod 64)]) s)"

definition API :: string where
  "API = ''https://api.github.com''"

definition headers :: "string \<Rightarrow> (string \<times> string) list" where
  "headers token =
     [(''Authorization'', ''Bearer '' @ token),
      (''Accept'', ''application/vnd.github.v3+json''),
      (''Content-Type'', ''application/json'')]"

definition contents_url :: "string \<Rightarrow> string \<Rightarrow> string \<Rightarrow> string" where
  "contents_url owner repo path = API @ ''/repos/'' @ owner @ ''/'' @ repo @ ''/contents/'' @ path"

text \<open>A number in a template string: its decimal digits.\<close>

fun string_of_nat :: "nat \<Rightarrow> string" where
  "string_of_nat n =
     (if n < 10 then [''0123456789'' ! n]
      else string_of_nat (n div 10) @ [''0123456789'' ! (n mod 10)])"

declare string_of_nat.simps [simp del]

text \<open>
  Reading a member of \<open>undefined\<close> or of \<open>null\<close> throws a \<open>TypeError\<close>, and so does
  calling a member that is \<open>undefined\<close>; the messages are the engine's (here V8's wording,
  with the member in single quotes).
\<close>

definition cannot_read :: "string \<Rightarrow> string \<Rightarrow> js_error" where
  "cannot_read base member =
     JsError ''TypeError''
       (''Cannot read properties of '' @ base @ '' (reading '' @ [CHR 0x27] @ member
          @ [CHR 0x27] @ '')'')"

definition not_a_function :: "string \<Rightarrow> js_error" where
  "not_a_function callee = JsError ''TypeError'' (callee @ '' is not a function'')"

definition get_request :: "string \<Rightarrow> string \<Rightarrow> string \<Rightarrow> string \<Rightarrow> request" where
  "get_request token owner repo path =
     \<lparr>req_url = contents_url owner repo path, req_method = ''GET'',
      req_headers = headers token, req_body = None\<rparr>"

definition listFiles ::
  "fetch \<Rightarrow> string \<Rightarrow> string \<Rightarrow> string \<Rightarrow> string \<Rightarrow> js_error + RepoFile list" where
  "listFiles fetch token owner repo path =
     (case fetch (get_request token owner repo path) of
        Inl e \<Rightarrow> Inl e
      | Inr res \<Rightarrow>
          if \<not> ok res
          then Inl (new_Error (''Failed to list '' @ path @ '': '' @ string_of_nat (status res)))
          else (case json res of
                  JInvalid e \<Rightarrow> Inl e
                | JArray data \<Rightarrow> Inr data
                | _ \<Rightarrow> Inr []))"

text \<open>
  \<open>listFilesRecursive\<close> follows the directories the store reports, so nothing bounds
  its recursion: the first argument is fuel, and \<open>None\<close> means that the fuel ran out.
  \<open>walk\<close> is the \<open>for\<close> loop over the items, with \<open>results\<close> as accumulator.
\<close>

fun listFilesRecursive ::
  "nat \<Rightarrow> fetch \<Rightarrow> string \<Rightarrow> string \<Rightarrow> string \<Rightarrow> string \<Rightarrow> (js_error + RepoFile list) option"
and walk ::
  "nat \<Rightarrow> fetch \<Rightarrow> string \<Rightarrow> string \<Rightarrow> string \<Rightarrow> RepoFile list \<Rightarrow> RepoFile list
     \<Rightarrow> (js_error + RepoFile list) option" where
  "listFilesRecursive 0 fetch token owner repo path = None"
| "listFilesRecursive (Suc n) fetch token owner repo path =
     (case listFiles fetch token owner repo path of
        Inl e \<Rightarrow> Some (Inl e)
      | Inr items \<Rightarrow> walk n fetch token owner repo items [])"
| "walk n fetch token owner repo [] results = Some (Inr results)"
| "walk n fetch token owner repo (item # items) results =
     (if rf_type item = ''file'' then walk n fetch token owner repo items (results @ [item])
      else if rf_type item = ''dir'' then
        (case listFilesRecursive n fetch token owner repo (rf_path item) of
           None \<Rightarrow> None
         | Some (Inl e) \<Rightarrow> Some (Inl e)
         | Some (Inr children) \<Rightarrow> walk n fetch token owner repo items (results @ children))
      else walk n fetch token owner repo items results)"

definition getFile ::
  "fetch \<Rightarrow> (string \<Rightarrow> js_error + string) \<Rightarrow> string \<Rightarrow> string \<Rightarrow> string \<Rightarrow> string
     \<Rightarrow> js_error + FileContent" where
  "getFile fetch atob token owner repo path =
     (case fetch (get_request token owner repo path) of
        Inl e \<Rightarrow> Inl e
      | Inr res \<Rightarrow>
          if \<not> ok res
          then Inl (new_Error (''Failed to get '' @ path @ '': '' @ string_of_nat (status res)))
          else (case json res of
                  JInvalid e \<Rightarrow> Inl e
                | JFile data \<Rightarrow>
                    (case atob (filter (\<lambda>c. c \<noteq> CHR 0x0A) (fc_content data)) of
                       Inl e \<Rightarrow> Inl e
                     | Inr content \<Rightarrow>
                         Inr \<lparr>fc_content = content, fc_sha = fc_sha data,
                              fc_path = fc_path data, fc_encoding = fc_encoding data\<rparr>)
                | JNull \<Rightarrow> Inl (cannot_read ''null'' ''content'')
                | JWritten d \<Rightarrow> Inl (not_a_function ''data.content.replace'')
                | _ \<Rightarrow> Inl (cannot_read ''undefined'' ''replace'')))"

text \<open>
  The request of \<open>putFile\<close>: the member \<open>sha\<close> is set only for a truthy \<open>sha\<close>
  argument, so neither for \<open>undefined\<close> nor for the empty string. The body is the
  structure that \<open>JSON.stringify\<close> writes out.
\<close>

definition put_request ::
  "(string \<Rightarrow> string) \<Rightarrow> string \<Rightarrow> string \<Rightarrow> string \<Rightarrow> string \<Rightarrow> string \<Rightarrow> string
     \<Rightarrow> string option \<Rightarrow> request" where
  "put_request btoa token owner repo path content msg sha =
     \<lparr>req_url = contents_url owner repo path, req_method = ''PUT'',
      req_headers = headers token,
      req_body = Some \<lparr>pb_message = msg, pb_content = btoa (utf8_bytes content),
                        pb_sha = (case sha of
                                    None \<Rightarrow> None
                                  | Some s \<Rightarrow> if s \<noteq> [] then Some s else None)\<rparr>\<rparr>"

text \<open>
  \<open>putFile\<close>. For a response that is not \<open>ok\<close>, \<open>err\<close> is the body, or \<open>{}\<close> when the
  body is not JSON; reading \<open>err.message\<close> throws when the body is \<open>null\<close>, and
  \<open>err.message || ""\<close> is the message or, without one, the empty string.
\<close>

definition putFile ::
  "fetch \<Rightarrow> (string \<Rightarrow> string) \<Rightarrow> string \<Rightarrow> string \<Rightarrow> string \<Rightarrow> string \<Rightarrow> string \<Rightarrow> string
     \<Rightarrow> string option \<Rightarrow> js_error + CommitResult" where
  "putFile fetch btoa token owner repo path content msg sha =
     (case fetch (put_request btoa token owner repo path content msg sha) of
        Inl e \<Rightarrow> Inl e
      | Inr res \<Rightarrow>
          if \<not> ok res
          then (case json res of
                  JNull \<Rightarrow> Inl (cannot_read ''null'' ''message'')
                | JMessage m \<Rightarrow>
                    Inl (new_Error (''Failed to save '' @ path @ '': ''
                           @ string_of_nat (status res) @ '' '' @ m))
                | _ \<Rightarrow>
                    Inl (new_Error (''Failed to save '' @ path @ '': ''
                           @ string_of_nat (status res) @ '' '' @ [])))
          else (case json res of
                  JInvalid e \<Rightarrow> Inl e
                | JNull \<Rightarrow> Inl (cannot_read ''null'' ''commit'')
                | JWritten data \<Rightarrow>
                    Inr \<lparr>cr_sha = cr_sha (commit data),
                         cr_html_url = cr_html_url (commit data)\<rparr>
                | _ \<Rightarrow> Inl (cannot_read ''undefined'' ''sha'')))"

section \<open>storage.ts and mdx.ts, as MobileApp.tsx uses them\<close>

record Credentials =
  token :: string
  owner :: string
  repo :: string

text \<open>
  A frontmatter is a \<open>Record<string, any>\<close>: keys with values, in insertion order.
\<close>

datatype jsvalue = JString string | JNumber int | JBool bool | JStrings "string list"

type_synonym frontmatter = "(string \<times> jsvalue) list"

record Draft =
  d_path :: string
  d_content :: string
  d_frontmatter :: frontmatter
  savedAt :: int

text \<open>
  Modelled from the spec: the module \<open>./storage\<close> is not among the sources. The
  specification describes \<open>getDraft(path)\<close>, \<open>saveDraft\<close> and \<open>removeDraft\<close> as keyed by
  path, last write wins, with at most one draft per path: the store is a map from paths to
  drafts.
\<close>

type_synonym draft_store = "string \<Rightarrow> Draft option"

definition getDraft :: "string \<Rightarrow> draft_store \<Rightarrow> Draft option" where
  "getDraft path store = store path"

definition saveDraft :: "string \<Rightarrow> Draft \<Rightarrow> draft_store \<Rightarrow> draft_store" where
  "saveDraft path draft store = store(path \<mapsto> draft)"

definition removeDraft :: "string \<Rightarrow> draft_store \<Rightarrow> draft_store" where
  "removeDraft path store = store(path := None)"

text \<open>
  The module \<open>./mdx\<close> is not among the sources either: \<open>parseFile\<close> and
  \<open>serializeFile\<close> are parameters of the functions that call them.
\<close>

record parsed =
  p_body :: string
  p_frontmatter :: frontmatter

record env =
  fetch :: fetch
  atob :: "string \<Rightarrow> js_error + string"
  btoa :: "string \<Rightarrow> string"
  parseFile :: "string \<Rightarrow> parsed"
  serializeFile :: "frontmatter \<Rightarrow> string \<Rightarrow> string"

section \<open>MobileApp.tsx\<close>

datatype Screen = Login | Browser | Editor

datatype EditorTab = Edit | Preview | Frontmatter

record AppState =
  screen :: Screen
  creds :: "Credentials option"
  loading :: bool
  error :: "string option"
  success :: "string option"
  files :: "RepoFile list"
  currentFile :: "FileContent option"
  currentSha :: "string option"
  editorTab :: EditorTab
  body :: string
  frontmatter :: frontmatter
  dirty :: bool
  showCommit :: bool
  commitMessage :: string
  committing :: bool

text \<open>
  The component's state together with the local draft store. Every handler is a function
  from one such pair to the next; \<open>set(patch)\<close> is a record update of \<open>app\<close>.
\<close>

record world =
  app :: AppState
  drafts :: draft_store

definition initial :: AppState where
  "initial =
     \<lparr>screen = Login, creds = None, loading = True, error = None, success = None,
      files = [], currentFile = None, currentSha = None, editorTab = Edit, body = [],
      frontmatter = [], dirty = False, showCommit = False, commitMessage = [],
      committing = False\<rparr>"

text \<open>\<open>listFilesRecursive(...).catch(() => [])\<close>, as \<open>loadFiles\<close> calls it.\<close>

definition catch_empty :: "js_error + RepoFile list \<Rightarrow> RepoFile list" where
  "catch_empty r = (case r of Inl e \<Rightarrow> [] | Inr fs \<Rightarrow> fs)"

definition list_or_empty :: "nat \<Rightarrow> env \<Rightarrow> Credentials \<Rightarrow> string \<Rightarrow> RepoFile list option" where
  "list_or_empty n env c path =
     map_option catch_empty
       (listFilesRecursive n (fetch env) (token c) (owner c) (repo c) path)"

text \<open>
  \<open>loadFiles\<close>: both listings have their own \<open>catch\<close>, so \<open>Promise.all\<close> cannot
  reject and the outer \<open>catch\<close> is never entered. \<open>None\<close> means that a listing ran out of
  fuel, that is, that \<open>loadFiles\<close> has not come back.
\<close>

definition loadFiles :: "nat \<Rightarrow> env \<Rightarrow> Credentials \<Rightarrow> world \<Rightarrow> world option" where
  "loadFiles n env c w =
     (let w1 = w\<lparr>app := (app w)\<lparr>loading := True, error := None\<rparr>\<rparr> in
      case list_or_empty n env c ''src/content/pages'' of
        None \<Rightarrow> None
      | Some pages \<Rightarrow>
         (case list_or_empty n env c ''src/content/posts'' of
            None \<Rightarrow> None
          | Some posts \<Rightarrow>
              Some (w1\<lparr>app := (app w1)\<lparr>files := pages @ posts, loading := False\<rparr>\<rparr>)))"

definition openFile :: "env \<Rightarrow> RepoFile \<Rightarrow> world \<Rightarrow> world" where
  "openFile env file w =
     (case creds (app w) of
        None \<Rightarrow> w
      | Some c \<Rightarrow>
          let w1 = w\<lparr>app := (app w)\<lparr>loading := True, error := None\<rparr>\<rparr>;
              draft = getDraft (rf_path file) (drafts w1)
          in case getFile (fetch env) (atob env) (token c) (owner c) (repo c) (rf_path file) of
               Inl e \<Rightarrow> w1\<lparr>app := (app w1)\<lparr>error := Some (message e), loading := False\<rparr>\<rparr>
             | Inr remote \<Rightarrow>
                 let use_draft = (case draft of None \<Rightarrow> False | Some d \<Rightarrow> 0 < savedAt d);
                     p = parseFile env (fc_content remote);
                     b = (case draft of
                            None \<Rightarrow> p_body p
                          | Some d \<Rightarrow> if 0 < savedAt d then d_content d else p_body p);
                     fm = (case draft of
                             None \<Rightarrow> p_frontmatter p
                           | Some d \<Rightarrow>
                               if 0 < savedAt d then d_frontmatter d else p_frontmatter p)
                 in w1\<lparr>app := (app w1)
                      \<lparr>screen := Editor, currentFile := Some remote,
                       currentSha := Some (fc_sha remote), body := b, frontmatter := fm,
                       editorTab := Edit, dirty := use_draft, loading := False,
                       commitMessage := ''Update '' @ rf_name file\<rparr>\<rparr>)"

text \<open>The two edit callbacks of the editor.\<close>

definition onBodyChange :: "string \<Rightarrow> world \<Rightarrow> world" where
  "onBodyChange b w = w\<lparr>app := (app w)\<lparr>body := b, dirty := True\<rparr>\<rparr>"

definition onFrontmatterChange :: "frontmatter \<Rightarrow> world \<Rightarrow> world" where
  "onFrontmatterChange fm w = w\<lparr>app := (app w)\<lparr>frontmatter := fm, dirty := True\<rparr>\<rparr>"

text \<open>
  What the autosave timer does when it fires at the time \<open>now\<close>. The effect arms the
  timer only with a current file and a dirty session; when and whether the timer fires is
  not part of this model.
\<close>

definition autosave :: "int \<Rightarrow> world \<Rightarrow> world" where
  "autosave now w =
     (case currentFile (app w) of
        None \<Rightarrow> w
      | Some f \<Rightarrow>
          if \<not> dirty (app w) then w
          else w\<lparr>drafts :=
                   saveDraft (fc_path f)
                     \<lparr>d_path = fc_path f, d_content = body (app w),
                      d_frontmatter = frontmatter (app w), savedAt = now\<rparr>
                     (drafts w)\<rparr>)"

text \<open>\<open>sha || undefined\<close>: \<open>null\<close> and the empty string become \<open>undefined\<close>.\<close>

definition or_undefined :: "string option \<Rightarrow> string option" where
  "or_undefined sha = (case sha of None \<Rightarrow> None | Some s \<Rightarrow> if s \<noteq> [] then Some s else None)"

text \<open>
  \<open>handleCommit\<close>. \<open>commit_write\<close> is its call of \<open>putFile\<close>. The timer that clears
  \<open>success\<close> five seconds later is not modelled.
\<close>

definition commit_write :: "env \<Rightarrow> Credentials \<Rightarrow> FileContent \<Rightarrow> AppState \<Rightarrow> js_error + CommitResult" where
  "commit_write env c f s =
     putFile (fetch env) (btoa env) (token c) (owner c) (repo c) (fc_path f)
       (serializeFile env (frontmatter s) (body s)) (commitMessage s)
       (or_undefined (currentSha s))"

definition handleCommit :: "env \<Rightarrow> world \<Rightarrow> world" where
  "handleCommit env w =
     (case creds (app w) of
        None \<Rightarrow> w
      | Some c \<Rightarrow>
         (case currentFile (app w) of
            None \<Rightarrow> w
          | Some f \<Rightarrow>
              let w1 = w\<lparr>app := (app w)\<lparr>committing := True, error := None\<rparr>\<rparr> in
              case commit_write env c f (app w) of
                Inl e \<Rightarrow> w1\<lparr>app := (app w1)\<lparr>error := Some (message e), committing := False\<rparr>\<rparr>
              | Inr result \<Rightarrow>
                  w1\<lparr>drafts := removeDraft (fc_path f) (drafts w1),
                      app := (app w1)
                        \<lparr>currentSha := Some (cr_sha result), dirty := False,
                         showCommit := False, committing := False,
                         success := Some ''Committed! Cloudflare will deploy shortly.''\<rparr>\<rparr>))"

text \<open>
  \<open>goBack\<close> patches the state and then starts \<open>loadFiles\<close> without waiting for it:
  \<open>goBack\<close> is the state when the handler returns (\<open>loadFiles\<close> has then done its first
  \<open>set\<close>), \<open>goBack_loaded\<close> the state once the listing has come back (\<open>None\<close> when it has
  not).
\<close>

definition goBack_patch :: "world \<Rightarrow> world" where
  "goBack_patch w =
     w\<lparr>app := (app w)
         \<lparr>screen := Browser, currentFile := None, currentSha := None, body := [],
          frontmatter := [], dirty := False, editorTab := Edit, error := None,
          success := None\<rparr>\<rparr>"

definition goBack :: "world \<Rightarrow> world" where
  "goBack w =
     (case creds (app w) of
        None \<Rightarrow> goBack_patch w
      | Some c \<Rightarrow>
          (goBack_patch w)\<lparr>app := (app (goBack_patch w))\<lparr>loading := True, error := None\<rparr>\<rparr>)"

definition goBack_loaded :: "nat \<Rightarrow> env \<Rightarrow> world \<Rightarrow> world option" where
  "goBack_loaded n env w =
     (case creds (app w) of
        None \<Rightarrow> Some (goBack_patch w)
      | Some c \<Rightarrow> loadFiles n env c (goBack_patch w))"

text \<open>The states that can be seen after \<open>goBack\<close>: at once, and after the listing.\<close>

definition after_goBack :: "nat \<Rightarrow> env \<Rightarrow> world \<Rightarrow> world list" where
  "after_goBack n env w =
     goBack w # (case goBack_loaded n env w of None \<Rightarrow> [] | Some w' \<Rightarrow> [w'])"

text \<open>The other callbacks of the editor screen: each is one \<open>set\<close>.\<close>

definition onTabChange :: "EditorTab \<Rightarrow> world \<Rightarrow> world" where
  "onTabChange t w = w\<lparr>app := (app w)\<lparr>editorTab := t\<rparr>\<rparr>"

definition onPublish :: "world \<Rightarrow> world" where
  "onPublish w = w\<lparr>app := (app w)\<lparr>showCommit := True\<rparr>\<rparr>"

definition onCancel :: "world \<Rightarrow> world" where
  "onCancel w = w\<lparr>app := (app w)\<lparr>showCommit := False\<rparr>\<rparr>"

definition onMessageChange :: "string \<Rightarrow> world \<Rightarrow> world" where
  "onMessageChange msg w = w\<lparr>app := (app w)\<lparr>commitMessage := msg\<rparr>\<rparr>"

definition dismissError :: "world \<Rightarrow> world" where
  "dismissError w = w\<lparr>app := (app w)\<lparr>error := None\<rparr>\<rparr>"

text \<open>The request that \<open>handleCommit\<close> sends through \<open>putFile\<close>.\<close>

definition commit_request :: "env \<Rightarrow> Credentials \<Rightarrow> FileContent \<Rightarrow> AppState \<Rightarrow> request" where
  "commit_request env c f s =
     put_request (btoa env) (token c) (owner c) (repo c) (fc_path f)
       (serializeFile env (frontmatter s) (body s)) (commitMessage s)
       (or_undefined (currentSha s))"

text \<open>
  An editing session: \<open>session b w\<close> holds when \<open>w\<close> is reached from a successful
  \<open>openFile\<close> by the editor's callbacks, the autosave and commits, and \<open>b\<close> is the baseline
  the code has recorded on the way: the \<open>sha\<close> of the file read at opening, replaced at every
  successful commit by the \<open>sha\<close> that \<open>putFile\<close> returned.
\<close>

inductive session :: "string \<Rightarrow> world \<Rightarrow> bool" where
  opened:
    "creds (app w) = Some c \<Longrightarrow>
     getFile (fetch env) (atob env) (token c) (owner c) (repo c) (rf_path file) = Inr remote \<Longrightarrow>
     session (fc_sha remote) (openFile env file w)"
| body_changed: "session b w \<Longrightarrow> session b (onBodyChange x w)"
| frontmatter_changed: "session b w \<Longrightarrow> session b (onFrontmatterChange fm w)"
| tab_changed: "session b w \<Longrightarrow> session b (onTabChange t w)"
| publish_pressed: "session b w \<Longrightarrow> session b (onPublish w)"
| cancelled: "session b w \<Longrightarrow> session b (onCancel w)"
| message_changed: "session b w \<Longrightarrow> session b (onMessageChange msg w)"
| error_dismissed: "session b w \<Longrightarrow> session b (dismissError w)"
| autosaved: "session b w \<Longrightarrow> session b (autosave now w)"
| committed:
    "session b w \<Longrightarrow> creds (app w) = Some c \<Longrightarrow> currentFile (app w) = Some f \<Longrightarrow>
     commit_write env c f (app w) = Inr result \<Longrightarrow>
     session (cr_sha result) (handleCommit env w)"
| commit_failed:
    "session b w \<Longrightarrow> creds (app w) = Some c \<Longrightarrow> currentFile (app w) = Some f \<Longrightarrow>
     commit_write env c f (app w) = Inl e \<Longrightarrow>
     session b (handleCommit env w)"

section \<open>Example inputs\<close>

text \<open>
  Stand-ins for the platform and for \<open>./mdx\<close> in the examples: base64 is left out, a
  file is all body.
\<close>

definition demo_env :: "fetch \<Rightarrow> env" where
  "demo_env f =
     \<lparr>fetch = f, atob = Inr, btoa = id,
      parseFile = (\<lambda>text. \<lparr>p_body = text, p_frontmatter = []\<rparr>),
      serializeFile = (\<lambda>fm b. b)\<rparr>"

definition demo_creds :: Credentials where
  "demo_creds = \<lparr>token = ''ghp_x'', owner = ''danrichardson'', repo = ''loomwork''\<rparr>"

definition hello :: RepoFile where
  "hello =
     \<lparr>rf_name = ''hello.mdx'', rf_path = ''src/content/posts/hello.mdx'', rf_sha = ''b1'',
      rf_type = ''file''\<rparr>"

definition hello_draft :: Draft where
  "hello_draft =
     \<lparr>d_path = ''src/content/posts/hello.mdx'', d_content = ''New body'',
      d_frontmatter = [(''title'', JString ''Hello'')], savedAt = 1700000000000\<rparr>"

text \<open>
  A store that holds \<open>hello.mdx\<close> with the sha \<open>b1\<close> and accepts every write; the write
  gives the file the sha \<open>b2\<close>, in the commit \<open>c2\<close>.
\<close>

definition store_ok :: fetch where
  "store_ok req =
     (if req_method req = ''GET''
      then Inr \<lparr>ok = True, status = 200,
                json = JFile \<lparr>fc_content = ''Old body'', fc_sha = ''b1'',
                               fc_path = ''src/content/posts/hello.mdx'',
                               fc_encoding = ''base64''\<rparr>\<rparr>
      else Inr \<lparr>ok = True, status = 200,
                json = JWritten \<lparr>content_sha = ''b2'',
                          commit = \<lparr>cr_sha = ''c2'',
                                    cr_html_url = ''https://github.com/danrichardson/loomwork/commit/c2''\<rparr>\<rparr>\<rparr>)"

text \<open>
  Stores that answer every request with 409 (one with a message, one with the body
  \<open>null\<close>), with 401 and with 404.
\<close>

definition store_conflict :: fetch where
  "store_conflict req =
     Inr \<lparr>ok = False, status = 409, json = JMessage ''src/content/posts/hello.mdx does not match b1''\<rparr>"



definition store_missing :: fetch where
  "store_missing req = Inr \<lparr>ok = False, status = 404, json = JMessage ''Not Found''\<rparr>"

text \<open>The state after login, with and without a draft for \<open>hello.mdx\<close>.\<close>

definition browsing :: world where
  "browsing =
     \<lparr>app = initial\<lparr>screen := Browser, creds := Some demo_creds, loading := False,
                      files := [hello]\<rparr>,
      drafts = Map.empty\<rparr>"

definition browsing_with_draft :: world where
  "browsing_with_draft = browsing\<lparr>drafts := [''src/content/posts/hello.mdx'' \<mapsto> hello_draft]\<rparr>"

text \<open>
  An editing session on \<open>hello.mdx\<close>: opened over the draft, edited once; then published
  to the store that accepts the write, and edited again.
\<close>

definition hello_remote :: FileContent where
  "hello_remote =
     \<lparr>fc_content = ''Old body'', fc_sha = ''b1'', fc_path = ''src/content/posts/hello.mdx'',
      fc_encoding = ''base64''\<rparr>"

definition editing :: world where
  "editing = onBodyChange ''Newer body'' (openFile (demo_env store_ok) hello browsing_with_draft)"

definition published :: world where
  "published = handleCommit (demo_env store_ok) editing"

definition editing_again :: world where
  "editing_again = onBodyChange ''Newest body'' published"


text \<open>Auxiliary notions for the proofs about \<open>parseRepo\<close>.\<close>

definition slash_free :: "string \<Rightarrow> bool" where
  "slash_free s = (CHR ''/'' \<notin> set s)"

definition last_seg :: "string \<Rightarrow> string" where
  "last_seg s = rev (takeWhile not_slash (rev s))"

definition before_last :: "string \<Rightarrow> string" where
  "before_last s = rev (drop 1 (dropWhile not_slash (rev s)))"

definition decomposes :: "string \<Rightarrow> string \<Rightarrow> string \<Rightarrow> bool" where
  "decomposes s ow rp =
     (ow \<noteq> [] \<and> rp \<noteq> [] \<and> slash_free ow \<and> slash_free rp \<and>
      (s = ow @ CHR ''/'' # rp \<or> (\<exists>pre. s = pre @ CHR ''/'' # ow @ CHR ''/'' # rp)))"


section \<open>Facts about parseRepo\<close>

lemma first_some_None: "(\<And>x. x \<in> set xs \<Longrightarrow> f x = None) \<Longrightarrow> first_some f xs = None"
  by (induction xs) auto

lemma first_some_SomeD: "first_some f xs = Some y \<Longrightarrow> \<exists>x \<in> set xs. f x = Some y"
  by (induction xs) (auto split: option.splits)

lemma first_some_greedy:
  assumes "\<And>j. 1 \<le> j \<Longrightarrow> j < k \<Longrightarrow> f j = None"
  shows "first_some f (rev [1..<Suc k]) = (if 1 \<le> k then f k else None)"
proof (cases "1 \<le> k")
  case True
  then have "rev [1..<Suc k] = k # rev [1..<k]" by simp
  moreover have "first_some f (rev [1..<k]) = None"
    using assms by (intro first_some_None) auto
  ultimately show ?thesis using True by (simp split: option.splits)
next
  case False
  then show ?thesis by simp
qed

lemma takeWhile_slash_free: "slash_free s \<Longrightarrow> takeWhile not_slash s = s"
  by (induction s) (auto simp: slash_free_def not_slash_def)

lemma takeWhile_not_slash_append:
  "slash_free a \<Longrightarrow> takeWhile not_slash (a @ CHR ''/'' # b) = a"
  by (induction a) (auto simp: slash_free_def not_slash_def)

lemma takeWhile_length_slash_free:
  "length (takeWhile not_slash s) = length s \<Longrightarrow> slash_free s"
  by (induction s) (auto simp: slash_free_def not_slash_def split: if_splits)

lemma match_repo_end_eq:
  "match_repo_end r = (if r \<noteq> [] \<and> slash_free r then Some r else None)"
proof -
  let ?k = "length (takeWhile not_slash r)"
  let ?f = "\<lambda>m. if drop m r = [] then Some (take m r) else None"
  have le: "?k \<le> length r" by (rule length_takeWhile_le)
  have "\<And>j. 1 \<le> j \<Longrightarrow> j < ?k \<Longrightarrow> ?f j = None" using le by auto
  then have eq: "match_repo_end r = (if 1 \<le> ?k then ?f ?k else None)"
    unfolding match_repo_end_def greedy_lengths_def by (rule first_some_greedy)
  show ?thesis
  proof (cases "slash_free r")
    case True
    then have "?k = length r" by (simp add: takeWhile_slash_free)
    then show ?thesis using eq True by (cases r) simp_all
  next
    case False
    then have "?k \<noteq> length r" using takeWhile_length_slash_free by blast
    with le have "?k < length r" by simp
    then show ?thesis using eq False by auto
  qed
qed

lemma drop_takeWhile_not_slash:
  "j < length (takeWhile not_slash t) \<Longrightarrow> \<exists>c r. drop j t = c # r \<and> c \<noteq> CHR ''/''"
proof -
  assume j: "j < length (takeWhile not_slash t)"
  have "length (takeWhile not_slash t) \<le> length t" by (rule length_takeWhile_le)
  with j have jl: "j < length t" by simp
  have "t ! j = takeWhile not_slash t ! j" using j by (simp add: takeWhile_nth)
  moreover have "takeWhile not_slash t ! j \<in> set (takeWhile not_slash t)" using j by simp
  ultimately have "not_slash (t ! j)" by (metis set_takeWhileD)
  then show ?thesis using jl by (auto simp: not_slash_def Cons_nth_drop_Suc[symmetric])
qed

lemma match_owner_repo_intro:
  assumes "ow \<noteq> []" "rp \<noteq> []" "slash_free ow" "slash_free rp"
  shows "match_owner_repo (ow @ CHR ''/'' # rp) = Some (ow, rp)"
proof -
  let ?t = "ow @ CHR ''/'' # rp"
  let ?f = "\<lambda>j. case drop j ?t of [] \<Rightarrow> None
            | c # r \<Rightarrow> if c = CHR ''/'' then map_option (Pair (take j ?t)) (match_repo_end r) else None"
  have k: "length (takeWhile not_slash ?t) = length ow"
    using assms by (simp add: takeWhile_not_slash_append)
  have "?f j = None" if "1 \<le> j" "j < length (takeWhile not_slash ?t)" for j
  proof -
    from that obtain c r where "drop j ?t = c # r" "c \<noteq> CHR ''/''"
      using drop_takeWhile_not_slash by blast
    then show ?thesis by simp
  qed
  then have "match_owner_repo ?t = (if 1 \<le> length (takeWhile not_slash ?t) then ?f (length (takeWhile not_slash ?t)) else None)"
    unfolding match_owner_repo_def greedy_lengths_def by (rule first_some_greedy)
  moreover have "Suc 0 \<le> length ow" using assms(1) by (cases ow) simp_all
  ultimately show ?thesis using assms by (simp add: k match_repo_end_eq)
qed

lemma match_owner_repo_SomeD:
  assumes "match_owner_repo t = Some (ow, rp)"
  shows "t = ow @ CHR ''/'' # rp \<and> ow \<noteq> [] \<and> rp \<noteq> [] \<and> slash_free ow \<and> slash_free rp"
proof -
  let ?f = "\<lambda>j. case drop j t of [] \<Rightarrow> None
            | c # r \<Rightarrow> if c = CHR ''/'' then map_option (Pair (take j t)) (match_repo_end r) else None"
  from assms obtain j where j: "j \<in> set (greedy_lengths t)" and fj: "?f j = Some (ow, rp)"
    unfolding match_owner_repo_def by (blast dest: first_some_SomeD)
  from j have j1: "1 \<le> j" and jk: "j \<le> length (takeWhile not_slash t)"
    by (auto simp: greedy_lengths_def)
  from fj obtain r where d: "drop j t = CHR ''/'' # r" and m: "match_repo_end r = Some rp" and o: "ow = take j t"
    by (auto split: list.splits if_splits)
  from m have rp: "rp = r" "r \<noteq> []" "slash_free r" by (auto simp: match_repo_end_eq split: if_splits)
  have "t = take j t @ drop j t" by simp
  then have t: "t = ow @ CHR ''/'' # rp" using d o rp by simp
  have "take j t = take j (takeWhile not_slash t @ dropWhile not_slash t)" by simp
  also have "\<dots> = take j (takeWhile not_slash t)"
    using jk by (simp del: takeWhile_dropWhile_id)
  finally have "take j t = take j (takeWhile not_slash t)" .
  then have "set ow \<subseteq> set (takeWhile not_slash t)" using o by (metis set_take_subset)
  then have "\<forall>c \<in> set ow. not_slash c" using set_takeWhileD by fastforce
  then have "slash_free ow" by (auto simp: slash_free_def not_slash_def)
  moreover have "ow \<noteq> []" using o j1 d by (cases t) auto
  ultimately show ?thesis using t rp by simp
qed

lemma slash_free_rev [simp]: "slash_free (rev s) = slash_free s"
  by (simp add: slash_free_def)

lemma last_seg_append: "slash_free r \<Longrightarrow> last_seg (a @ CHR ''/'' # r) = r"
  by (simp add: last_seg_def takeWhile_not_slash_append)

lemma dropWhile_not_slash_append:
  "slash_free a \<Longrightarrow> dropWhile not_slash (a @ CHR ''/'' # b) = CHR ''/'' # b"
  by (induction a) (auto simp: slash_free_def not_slash_def)

lemma before_last_append: "slash_free r \<Longrightarrow> before_last (a @ CHR ''/'' # r) = a"
  by (simp add: before_last_def dropWhile_not_slash_append)

lemma last_slash_cases:
  "slash_free s \<or> (\<exists>a r. s = a @ CHR ''/'' # r \<and> slash_free r)"
  unfolding slash_free_def by (metis split_list_last)

lemma split_slash_not_Nil [simp]: "split_slash s \<noteq> []"
  by (induction s) (auto split: list.splits)

lemma split_slash_slash_free: "slash_free s \<Longrightarrow> split_slash s = [s]"
  by (induction s) (auto simp: slash_free_def)

lemma split_slash_append:
  "split_slash (a @ CHR ''/'' # b) = split_slash a @ split_slash b"
  by (induction a) (auto split: list.splits)

lemma decomposes_last_two:
  assumes "decomposes s ow rp"
  shows "last_two_segments s = Some (ow, rp)"
proof -
  from assms have v: "ow \<noteq> []" "rp \<noteq> []" "slash_free ow" "slash_free rp"
    by (simp_all add: decomposes_def)
  from assms consider "s = ow @ CHR ''/'' # rp" | pre where "s = pre @ CHR ''/'' # ow @ CHR ''/'' # rp"
    by (auto simp: decomposes_def)
  then show ?thesis
  proof cases
    case 1
    then have "split_slash s = [ow, rp]"
      using v by (simp add: split_slash_append split_slash_slash_free)
    then show ?thesis using v by (simp add: last_two_segments_def)
  next
    case 2
    then have "s = (pre @ CHR ''/'' # ow) @ CHR ''/'' # rp" by simp
    then have "split_slash s = split_slash pre @ [ow, rp]"
      using v by (simp only: split_slash_append split_slash_slash_free) simp
    then show ?thesis using v by (simp add: last_two_segments_def butlast_append)
  qed
qed

lemma last_two_decomposes:
  assumes "last_two_segments s = Some (ow, rp)"
  shows "decomposes s ow rp"
proof -
  from assms have l: "2 \<le> length (split_slash s)" and ow: "ow = last (butlast (split_slash s))"
    and rp: "rp = last (split_slash s)" and ne: "ow \<noteq> []" "rp \<noteq> []"
    by (auto simp: last_two_segments_def Let_def split: if_splits)
  from l have "\<not> slash_free s" by (auto simp: split_slash_slash_free)
  then obtain a r where s: "s = a @ CHR ''/'' # r" and r: "slash_free r"
    using last_slash_cases by blast
  have sp: "split_slash s = split_slash a @ [r]"
    using r by (simp add: s split_slash_append split_slash_slash_free)
  then have rp': "rp = r" and ow': "ow = last (split_slash a)" using rp ow by simp_all
  show ?thesis
  proof (cases "slash_free a")
    case True
    then have "ow = a" using ow' by (simp add: split_slash_slash_free)
    then show ?thesis using s r rp' ne True by (auto simp: decomposes_def)
  next
    case False
    then obtain a' ow' where a: "a = a' @ CHR ''/'' # ow'" and o: "slash_free ow'"
      using last_slash_cases by blast
    then have "ow = ow'" using ow' by (simp add: split_slash_append split_slash_slash_free)
    then show ?thesis using s a r o rp' ne by (auto simp: decomposes_def)
  qed
qed

lemma same_last_slash:
  assumes "a @ CHR ''/'' # r = b @ CHR ''/'' # q" "slash_free r" "slash_free q"
  shows "a = b \<and> r = q"
proof -
  have "before_last (a @ CHR ''/'' # r) = a" "last_seg (a @ CHR ''/'' # r) = r"
    using assms(2) by (simp_all add: before_last_append last_seg_append)
  moreover have "before_last (b @ CHR ''/'' # q) = b" "last_seg (b @ CHR ''/'' # q) = q"
    using assms(3) by (simp_all add: before_last_append last_seg_append)
  ultimately show ?thesis using assms(1) by simp
qed

lemma match_at_SomeD:
  assumes "match_at t = Some (ow, rp)"
  shows "ow \<noteq> [] \<and> rp \<noteq> [] \<and> slash_free ow \<and> slash_free rp \<and>
         (t = ow @ CHR ''/'' # rp \<or> t = ''github.com'' @ CHR ''/'' # ow @ CHR ''/'' # rp)"
proof (cases "match_owner_repo t = Some (ow, rp)")
  case True
  then show ?thesis using match_owner_repo_SomeD by blast
next
  case False
  with assms have g: "take 11 t = ''github.com/''" and m: "match_owner_repo (drop 11 t) = Some (ow, rp)"
    by (auto simp: match_at_def split: option.splits if_splits)
  have "t = take 11 t @ drop 11 t" by simp
  then have "t = ''github.com/'' @ drop 11 t" using g by simp
  then show ?thesis using match_owner_repo_SomeD[OF m] by simp
qed

lemma match_at_intro:
  assumes "ow \<noteq> []" "rp \<noteq> []" "slash_free ow" "slash_free rp"
  shows "match_at (ow @ CHR ''/'' # rp) = Some (ow, rp)"
proof -
  let ?t = "ow @ CHR ''/'' # rp"
  have m: "match_owner_repo ?t = Some (ow, rp)" using assms by (rule match_owner_repo_intro)
  show ?thesis
  proof (cases "match_at ?t")
    case None
    then show ?thesis using m by (simp add: match_at_def split: option.splits if_splits)
  next
    case (Some p)
    obtain ow' rp' where p: "p = (ow', rp')" by (cases p)
    from match_at_SomeD[OF Some[unfolded p]]
    have v: "slash_free ow'" "slash_free rp'"
      and d: "?t = ow' @ CHR ''/'' # rp' \<or> ?t = (''github.com'' @ CHR ''/'' # ow') @ CHR ''/'' # rp'"
      by simp_all
    from d show ?thesis
    proof
      assume "?t = ow' @ CHR ''/'' # rp'"
      then have "ow = ow' \<and> rp = rp'" using assms v by (intro same_last_slash)
      then show ?thesis using Some p by simp
    next
      assume "?t = (''github.com'' @ CHR ''/'' # ow') @ CHR ''/'' # rp'"
      then have "ow = ''github.com'' @ CHR ''/'' # ow'" using assms v same_last_slash by blast
      then have False using assms(3) by (simp add: slash_free_def)
      then show ?thesis ..
    qed
  qed
qed

lemma first_some_map: "first_some f (map g xs) = first_some (\<lambda>x. f (g x)) xs"
  by (induction xs) (auto split: option.splits)

lemma regex_match_Cons:
  "regex_match (c # s) =
     (case match_at (c # s) of Some m \<Rightarrow> Some m | None \<Rightarrow> regex_match s)"
proof -
  have a: "[0..<Suc (Suc (length s))] = 0 # [Suc 0..<Suc (Suc (length s))]"
    by (rule upt_conv_Cons) simp
  have b: "[Suc 0..<Suc (Suc (length s))] = map Suc [0..<Suc (length s)]"
    by (rule map_Suc_upt[symmetric])
  show ?thesis
    unfolding regex_match_def length_Cons a b
    by (simp only: first_some.simps first_some_map drop_0 drop_Suc_Cons)
qed

lemma match_at_after_slash:
  assumes "slash_free ow" "slash_free rp"
    and "match_at (q @ CHR ''/'' # ow @ CHR ''/'' # rp) = Some m"
  shows "m = (ow, rp)"
proof -
  obtain ow' rp' where m: "m = (ow', rp')" by (cases m)
  let ?t = "(q @ CHR ''/'' # ow) @ CHR ''/'' # rp"
  from match_at_SomeD[of "q @ CHR ''/'' # ow @ CHR ''/'' # rp" ow' rp'] assms(3) m
  have v: "slash_free ow'" "slash_free rp'"
    and d: "?t = ow' @ CHR ''/'' # rp' \<or> ?t = (''github.com'' @ CHR ''/'' # ow') @ CHR ''/'' # rp'"
    by simp_all
  from d show ?thesis
  proof
    assume "?t = ow' @ CHR ''/'' # rp'"
    then have "q @ CHR ''/'' # ow = ow'" using assms v same_last_slash by blast
    then have False using v(1) by (auto simp: slash_free_def)
    then show ?thesis ..
  next
    assume "?t = (''github.com'' @ CHR ''/'' # ow') @ CHR ''/'' # rp'"
    then have "q @ CHR ''/'' # ow = ''github.com'' @ CHR ''/'' # ow' \<and> rp = rp'"
      using assms v same_last_slash by blast
    moreover from this have "q = ''github.com'' \<and> ow = ow'"
      using assms v same_last_slash by blast
    ultimately show ?thesis using m by simp
  qed
qed

lemma regex_match_prefixed:
  assumes "ow \<noteq> []" "rp \<noteq> []" "slash_free ow" "slash_free rp"
  shows "p = [] \<or> last p = CHR ''/'' \<Longrightarrow> regex_match (p @ ow @ CHR ''/'' # rp) = Some (ow, rp)"
proof (induction p)
  case Nil
  obtain c ow' where ow: "ow = c # ow'" using assms(1) by (cases ow) auto
  have "match_at (ow @ CHR ''/'' # rp) = Some (ow, rp)" using assms by (rule match_at_intro)
  then show ?case by (simp add: ow regex_match_Cons)
next
  case (Cons c p)
  have ih: "regex_match (p @ ow @ CHR ''/'' # rp) = Some (ow, rp)"
    using Cons by (cases "p = []") auto
  obtain q where q: "c # p = q @ [CHR ''/'']"
    using Cons.prems by (metis append_butlast_last_id list.distinct(1))
  show ?case
  proof (cases "match_at ((c # p) @ ow @ CHR ''/'' # rp)")
    case None
    then show ?thesis using ih by (simp add: regex_match_Cons)
  next
    case (Some m)
    then have "match_at (q @ CHR ''/'' # ow @ CHR ''/'' # rp) = Some m" by (simp add: q)
    then have "m = (ow, rp)" using assms match_at_after_slash by blast
    then show ?thesis using Some by (simp add: regex_match_Cons)
  qed
qed

lemma decomposes_regex_match:
  assumes "decomposes s ow rp"
  shows "regex_match s = Some (ow, rp)"
proof -
  from assms have v: "ow \<noteq> []" "rp \<noteq> []" "slash_free ow" "slash_free rp"
    by (simp_all add: decomposes_def)
  from assms consider "s = [] @ ow @ CHR ''/'' # rp"
    | pre where "s = (pre @ [CHR ''/'']) @ ow @ CHR ''/'' # rp"
    by (auto simp: decomposes_def)
  then show ?thesis
  proof cases
    case 1
    then show ?thesis using regex_match_prefixed[OF v, of "[]"] by simp
  next
    case 2
    then show ?thesis using regex_match_prefixed[OF v, of "pre @ [CHR ''/'']"] by simp
  qed
qed

lemma suffix_decomposes:
  assumes "s = x @ ow @ CHR ''/'' # rp" "ow \<noteq> []" "rp \<noteq> []" "slash_free ow" "slash_free rp"
  shows "\<exists>ow'. decomposes s ow' rp"
proof (cases "slash_free x")
  case True
  then have "decomposes s (x @ ow) rp"
    using assms by (auto simp: decomposes_def slash_free_def)
  then show ?thesis ..
next
  case False
  then obtain x' y where x: "x = x' @ CHR ''/'' # y" and y: "slash_free y"
    using last_slash_cases by blast
  then have "decomposes s (y @ ow) rp"
    using assms by (auto simp: decomposes_def slash_free_def)
  then show ?thesis ..
qed

lemma regex_match_decomposes:
  assumes "regex_match s = Some m"
  shows "\<exists>ow rp. decomposes s ow rp"
proof -
  have "\<exists>i \<in> set [0..<Suc (length s)]. match_at (drop i s) = Some m"
    using assms unfolding regex_match_def by (rule first_some_SomeD)
  then obtain i where i: "match_at (drop i s) = Some m" by blast
  obtain ow rp where "m = (ow, rp)" by (cases m)
  with i have m: "match_at (drop i s) = Some (ow, rp)" by simp
  from match_at_SomeD[OF m]
  have v: "ow \<noteq> []" "rp \<noteq> []" "slash_free ow" "slash_free rp"
    and d: "drop i s = ow @ CHR ''/'' # rp \<or> drop i s = ''github.com'' @ CHR ''/'' # ow @ CHR ''/'' # rp"
    by simp_all
  have s: "s = take i s @ drop i s" by (rule append_take_drop_id[symmetric])
  from d have "\<exists>x. s = x @ ow @ CHR ''/'' # rp"
  proof
    assume d1: "drop i s = ow @ CHR ''/'' # rp"
    have "s = take i s @ ow @ CHR ''/'' # rp" by (rule s[unfolded d1])
    then show ?thesis by (rule exI[of _ "take i s"])
  next
    assume d2: "drop i s = ''github.com'' @ CHR ''/'' # ow @ CHR ''/'' # rp"
    have "take i s @ ''github.com'' @ CHR ''/'' # ow @ CHR ''/'' # rp
        = (take i s @ ''github.com/'') @ ow @ CHR ''/'' # rp" by simp
    with s[unfolded d2] have "s = (take i s @ ''github.com/'') @ ow @ CHR ''/'' # rp"
      by (rule trans)
    then show ?thesis by (rule exI[of _ "take i s @ ''github.com/''"])
  qed
  then obtain x where x: "s = x @ ow @ CHR ''/'' # rp" by blast
  show ?thesis using suffix_decomposes[OF x v] by blast
qed

lemma regex_match_last_two: "regex_match s = last_two_segments s"
proof (cases "last_two_segments s")
  case None
  show ?thesis
  proof (cases "regex_match s")
    case (Some m)
    from regex_match_decomposes[OF Some] obtain ow rp where "decomposes s ow rp" by blast
    then have "last_two_segments s = Some (ow, rp)" by (rule decomposes_last_two)
    then show ?thesis using None by simp
  qed (simp add: None)
next
  case (Some m)
  obtain ow rp where m: "m = (ow, rp)" by (cases m)
  have "last_two_segments s = Some (ow, rp)" using Some m by simp
  then have "decomposes s ow rp" by (rule last_two_decomposes)
  then have "regex_match s = Some (ow, rp)" by (rule decomposes_regex_match)
  then show ?thesis using Some m by simp
qed


text \<open>
  Claim C10. \<open>parseRepo\<close> removes a trailing \<open>.git\<close> and then a trailing slash
  (the function \<open>cleaned\<close>) and returns the last two slash-separated segments of what is
  left as owner and repository; it throws the error \<open>Invalid repo format\<close> exactly when
  what is left does not end in two nonempty segments separated by a slash. So
  \<open>a/b/c\<close> gives owner \<open>b\<close> and repository \<open>c\<close>, a full GitHub URL gives its owner
  and repository, and an input without a slash is rejected. The test is on what is left
  after the two removals: \<open>owner/repo/\<close> is accepted.
\<close>

theorem parseRepo_last_two_segments:
  "parseRepo input =
     (case last_two_segments (strip_end ''/'' (strip_end ''.git'' input)) of
        None \<Rightarrow> Inl (new_Error ''Invalid repo format. Use owner/repo or a GitHub URL.'')
      | Some (ow, rp) \<Rightarrow> Inr (ow, rp))
   \<and> parseRepo ''a/b/c'' = Inr (''b'', ''c'')
   \<and> parseRepo ''https://github.com/danrichardson/loomwork.git''
       = Inr (''danrichardson'', ''loomwork'')
   \<and> parseRepo ''loomwork''
       = Inl (new_Error ''Invalid repo format. Use owner/repo or a GitHub URL.'')
   \<and> parseRepo ''owner/repo/'' = Inr (''owner'', ''repo'')"
proof -
  have gen: "parseRepo i =
     (case last_two_segments (strip_end ''/'' (strip_end ''.git'' i)) of
        None \<Rightarrow> Inl (new_Error ''Invalid repo format. Use owner/repo or a GitHub URL.'')
      | Some (ow, rp) \<Rightarrow> Inr (ow, rp))" for i
    by (simp add: parseRepo_def cleaned_def regex_match_last_two split: option.splits)
  have "parseRepo ''a/b/c'' = Inr (''b'', ''c'')"
    by (simp add: gen strip_end_def ends_with_def last_two_segments_def)
  moreover have "parseRepo ''https://github.com/danrichardson/loomwork.git''
       = Inr (''danrichardson'', ''loomwork'')"
    by (simp add: gen strip_end_def ends_with_def last_two_segments_def)
  moreover have "parseRepo ''loomwork''
       = Inl (new_Error ''Invalid repo format. Use owner/repo or a GitHub URL.'')"
    by (simp add: gen strip_end_def ends_with_def last_two_segments_def)
  moreover have "parseRepo ''owner/repo/'' = Inr (''owner'', ''repo'')"
    by (simp add: gen strip_end_def ends_with_def last_two_segments_def)
  ultimately show ?thesis using gen by blast
qed

section \<open>Facts about the editor\<close>

lemma demo_env_sel [simp]:
  "fetch (demo_env f) = f" "atob (demo_env f) = Inr" "btoa (demo_env f) = id"
  "parseFile (demo_env f) text = \<lparr>p_body = text, p_frontmatter = []\<rparr>"
  "serializeFile (demo_env f) fm b = b"
  by (simp_all add: demo_env_def)

lemma string_of_nat_409: "string_of_nat 409 = ''409''"
  by (simp add: string_of_nat.simps)
lemma string_of_nat_404: "string_of_nat 404 = ''404''"
  by (simp add: string_of_nat.simps)









lemma commit_write_response:
  "commit_write env c f s =
     (case fetch env (commit_request env c f s) of
        Inl e \<Rightarrow> Inl e
      | Inr res \<Rightarrow>
          if \<not> ok res
          then (case json res of
                  JNull \<Rightarrow> Inl (cannot_read ''null'' ''message'')
                | _ \<Rightarrow>
                    Inl (new_Error (''Failed to save '' @ fc_path f @ '': ''
                           @ string_of_nat (status res) @ '' ''
                           @ (case json res of JMessage m \<Rightarrow> m | _ \<Rightarrow> []))))
          else (case json res of
                  JInvalid e \<Rightarrow> Inl e
                | JNull \<Rightarrow> Inl (cannot_read ''null'' ''commit'')
                | JWritten data \<Rightarrow>
                    Inr \<lparr>cr_sha = cr_sha (commit data),
                         cr_html_url = cr_html_url (commit data)\<rparr>
                | _ \<Rightarrow> Inl (cannot_read ''undefined'' ''sha'')))"
  by (simp add: commit_write_def commit_request_def putFile_def split: sum.splits json.splits)


lemma handleCommit_ok:
  assumes "creds (app w) = Some c" "currentFile (app w) = Some f"
    and "commit_write env c f (app w) = Inr result"
  shows "handleCommit env w =
     w\<lparr>drafts := (drafts w)(fc_path f := None),
        app := (app w)\<lparr>committing := False, error := None, currentSha := Some (cr_sha result),
                        dirty := False, showCommit := False,
                        success := Some ''Committed! Cloudflare will deploy shortly.''\<rparr>\<rparr>"
  using assms by (simp add: handleCommit_def removeDraft_def)

lemma handleCommit_failed:
  assumes "creds (app w) = Some c" "currentFile (app w) = Some f"
    and "commit_write env c f (app w) = Inl e"
  shows "handleCommit env w = w\<lparr>app := (app w)\<lparr>committing := False, error := Some (message e)\<rparr>\<rparr>"
  using assms by (simp add: handleCommit_def)

lemma openFile_draft:
  assumes "creds (app w) = Some c"
    and "getFile (fetch env) (atob env) (token c) (owner c) (repo c) (rf_path file) = Inr remote"
    and "drafts w (rf_path file) = Some d" "0 < savedAt d"
  shows "openFile env file w =
     w\<lparr>app := (app w)
         \<lparr>error := None, screen := Editor, currentFile := Some remote,
          currentSha := Some (fc_sha remote), body := d_content d,
          frontmatter := d_frontmatter d, editorTab := Edit, dirty := True, loading := False,
          commitMessage := ''Update '' @ rf_name file\<rparr>\<rparr>"
  using assms by (simp add: openFile_def getDraft_def)

lemma openFile_remote:
  assumes "creds (app w) = Some c"
    and "getFile (fetch env) (atob env) (token c) (owner c) (repo c) (rf_path file) = Inr remote"
    and "\<forall>d. drafts w (rf_path file) = Some d \<longrightarrow> \<not> 0 < savedAt d"
  shows "openFile env file w =
     w\<lparr>app := (app w)
         \<lparr>error := None, screen := Editor, currentFile := Some remote,
          currentSha := Some (fc_sha remote),
          body := p_body (parseFile env (fc_content remote)),
          frontmatter := p_frontmatter (parseFile env (fc_content remote)),
          editorTab := Edit, dirty := False, loading := False,
          commitMessage := ''Update '' @ rf_name file\<rparr>\<rparr>"
  using assms
  by (cases "drafts w (rf_path file)") (simp_all add: openFile_def getDraft_def Let_def)

lemma openFile_failed:
  assumes "creds (app w) = Some c"
    and "getFile (fetch env) (atob env) (token c) (owner c) (repo c) (rf_path file) = Inl e"
  shows "openFile env file w = w\<lparr>app := (app w)\<lparr>error := Some (message e), loading := False\<rparr>\<rparr>"
  using assms by (simp add: openFile_def)

lemma getFile_store_ok: "getFile store_ok Inr t ow rp p = Inr hello_remote"
  by (simp add: getFile_def store_ok_def get_request_def hello_remote_def)

lemma editing_eq:
  "editing =
     \<lparr>app = \<lparr>screen = Editor, creds = Some demo_creds, loading = False, error = None,
             success = None, files = [hello], currentFile = Some hello_remote,
             currentSha = Some ''b1'', editorTab = Edit, body = ''Newer body'',
             frontmatter = [(''title'', JString ''Hello'')], dirty = True,
             showCommit = False, commitMessage = ''Update hello.mdx'', committing = False\<rparr>,
      drafts = [''src/content/posts/hello.mdx'' \<mapsto> hello_draft]\<rparr>"
proof -
  have c: "creds (app browsing_with_draft) = Some demo_creds"
    by (simp add: browsing_with_draft_def browsing_def)
  have g: "getFile (fetch (demo_env store_ok)) (atob (demo_env store_ok)) (token demo_creds)
             (owner demo_creds) (repo demo_creds) (rf_path hello) = Inr hello_remote"
    by (simp add: getFile_store_ok)
  have d: "drafts browsing_with_draft (rf_path hello) = Some hello_draft"
    by (simp add: browsing_with_draft_def hello_def)
  have s: "0 < savedAt hello_draft" by (simp add: hello_draft_def)
  show ?thesis
    unfolding editing_def openFile_draft[OF c g d s]
    by (simp add: onBodyChange_def browsing_with_draft_def browsing_def initial_def
        hello_remote_def hello_draft_def hello_def)
qed

text \<open>The bodies of the examples are ASCII: their UTF-8 bytes are the same.\<close>

lemma utf8_bytes_examples:
  "utf8_bytes ''Newer body'' = ''Newer body''"
  "utf8_bytes ''Newest body'' = ''Newest body''"
  by (simp_all add: utf8_bytes_def)

text \<open>A code unit from 128 on becomes two bytes: \<open>0xE9\<close> becomes \<open>0xC3 0xA9\<close>.\<close>

lemma utf8_bytes_two_bytes: "utf8_bytes [CHR 0xE9] = [CHR 0xC3, CHR 0xA9]"
  by code_simp

lemma commit_request_editing:
  "commit_request (demo_env f) demo_creds hello_remote (app editing) =
     \<lparr>req_url = ''https://api.github.com/repos/danrichardson/loomwork/contents/src/content/posts/hello.mdx'',
      req_method = ''PUT'', req_headers = headers ''ghp_x'',
      req_body = Some \<lparr>pb_message = ''Update hello.mdx'', pb_content = ''Newer body'',
                        pb_sha = Some ''b1''\<rparr>\<rparr>"
  by (simp add: commit_request_def put_request_def or_undefined_def editing_eq demo_creds_def
      hello_remote_def contents_url_def API_def utf8_bytes_examples)

lemma commit_write_conflict:
  "commit_write (demo_env store_conflict) demo_creds hello_remote (app editing) =
     Inl (JsError ''Error''
       ''Failed to save src/content/posts/hello.mdx: 409 src/content/posts/hello.mdx does not match b1'')"
  by (simp add: commit_write_response store_conflict_def string_of_nat_409
      new_Error_def hello_remote_def)


lemma commit_write_ok:
  "commit_write (demo_env store_ok) demo_creds hello_remote (app editing) =
     Inr \<lparr>cr_sha = ''c2'', cr_html_url = ''https://github.com/danrichardson/loomwork/commit/c2''\<rparr>"
  by (simp add: commit_write_response commit_request_editing store_ok_def)

lemma published_eq:
  "published =
     \<lparr>app = \<lparr>screen = Editor, creds = Some demo_creds, loading = False, error = None,
             success = Some ''Committed! Cloudflare will deploy shortly.'', files = [hello],
             currentFile = Some hello_remote,
             currentSha = Some ''c2'', editorTab = Edit, body = ''Newer body'',
             frontmatter = [(''title'', JString ''Hello'')], dirty = False,
             showCommit = False, commitMessage = ''Update hello.mdx'', committing = False\<rparr>,
      drafts = Map.empty\<rparr>"
proof -
  have c: "creds (app editing) = Some demo_creds" by (simp add: editing_eq)
  have f: "currentFile (app editing) = Some hello_remote" by (simp add: editing_eq)
  show ?thesis
    unfolding published_def handleCommit_ok[OF c f commit_write_ok]
    by (simp add: editing_eq hello_remote_def)
qed

text \<open>
  Claim C2. When the write of a commit fails (\<open>putFile\<close> throws: the store rejected the
  write, for a stale version token or for missing authorization, or the request did not get
  through, see \<open>commit_write_fails\<close>), a dirty session is still dirty afterwards, the draft
  store is exactly what it was, the error's message is in \<open>error\<close>, and the body, the
  frontmatter and the baseline version token have not changed.
\<close>

theorem commit_failure_keeps_session:
  assumes "creds (app w) = Some c" "currentFile (app w) = Some f" "dirty (app w)"
    and "commit_write env c f (app w) = Inl e"
  shows "dirty (app (handleCommit env w))
       \<and> drafts (handleCommit env w) = drafts w
       \<and> error (app (handleCommit env w)) = Some (message e)
       \<and> body (app (handleCommit env w)) = body (app w)
       \<and> frontmatter (app (handleCommit env w)) = frontmatter (app w)
       \<and> currentSha (app (handleCommit env w)) = currentSha (app w)"
  using assms by (simp add: handleCommit_failed)

theorem commit_failure_keeps_session_witness:
  "dirty (app (handleCommit (demo_env store_conflict) editing))
   \<and> drafts (handleCommit (demo_env store_conflict) editing)
       = [''src/content/posts/hello.mdx'' \<mapsto> hello_draft]
   \<and> error (app (handleCommit (demo_env store_conflict) editing))
       = Some ''Failed to save src/content/posts/hello.mdx: 409 src/content/posts/hello.mdx does not match b1''
   \<and> body (app (handleCommit (demo_env store_conflict) editing)) = ''Newer body''
   \<and> frontmatter (app (handleCommit (demo_env store_conflict) editing))
       = [(''title'', JString ''Hello'')]
   \<and> currentSha (app (handleCommit (demo_env store_conflict) editing)) = Some ''b1''"
proof -
  have c: "creds (app editing) = Some demo_creds" by (simp add: editing_eq)
  have f: "currentFile (app editing) = Some hello_remote" by (simp add: editing_eq)
  have d: "dirty (app editing)" by (simp add: editing_eq)
  from commit_failure_keeps_session[OF c f d commit_write_conflict]
  show ?thesis by (simp add: editing_eq)
qed

text \<open>
  Claim C3. When \<open>openFile\<close> has read the remote file: if the draft store holds a draft
  for the path with \<open>savedAt > 0\<close>, the session shows the draft's content and frontmatter
  and is dirty, whatever the remote content is; if it holds no such draft, the session shows
  the body and the frontmatter that \<open>parseFile\<close> gives for the remote content and is not
  dirty.
\<close>

theorem openFile_presents:
  assumes "creds (app w) = Some c"
    and "getFile (fetch env) (atob env) (token c) (owner c) (repo c) (rf_path file) = Inr remote"
  shows "(\<forall>d. drafts w (rf_path file) = Some d \<and> 0 < savedAt d \<longrightarrow>
            body (app (openFile env file w)) = d_content d
          \<and> frontmatter (app (openFile env file w)) = d_frontmatter d
          \<and> dirty (app (openFile env file w)))
       \<and> ((\<forall>d. drafts w (rf_path file) = Some d \<longrightarrow> \<not> 0 < savedAt d) \<longrightarrow>
            body (app (openFile env file w)) = p_body (parseFile env (fc_content remote))
          \<and> frontmatter (app (openFile env file w))
              = p_frontmatter (parseFile env (fc_content remote))
          \<and> \<not> dirty (app (openFile env file w)))"
  using assms by (auto simp add: openFile_draft openFile_remote)

theorem openFile_presents_witness:
  "body (app (openFile (demo_env store_ok) hello browsing_with_draft)) = ''New body''
   \<and> frontmatter (app (openFile (demo_env store_ok) hello browsing_with_draft))
       = [(''title'', JString ''Hello'')]
   \<and> dirty (app (openFile (demo_env store_ok) hello browsing_with_draft))
   \<and> body (app (openFile (demo_env store_ok) hello browsing)) = ''Old body''
   \<and> frontmatter (app (openFile (demo_env store_ok) hello browsing)) = []
   \<and> \<not> dirty (app (openFile (demo_env store_ok) hello browsing))"
proof -
  have g: "getFile (fetch (demo_env store_ok)) (atob (demo_env store_ok)) (token demo_creds)
             (owner demo_creds) (repo demo_creds) (rf_path hello) = Inr hello_remote"
    by (simp add: getFile_store_ok)
  have c1: "creds (app browsing_with_draft) = Some demo_creds"
    by (simp add: browsing_with_draft_def browsing_def)
  have c2: "creds (app browsing) = Some demo_creds" by (simp add: browsing_def)
  have d1: "drafts browsing_with_draft (rf_path hello) = Some hello_draft \<and> 0 < savedAt hello_draft"
    by (simp add: browsing_with_draft_def hello_def hello_draft_def)
  have d2: "\<forall>d. drafts browsing (rf_path hello) = Some d \<longrightarrow> \<not> 0 < savedAt d"
    by (simp add: browsing_def)
  from openFile_presents[OF c1 g] d1 openFile_presents[OF c2 g] d2
  show ?thesis by (simp add: hello_draft_def hello_remote_def)
qed


lemma listFiles_not_ok:
  assumes "fe (get_request t ow rp p) = Inr res" "\<not> ok res"
  shows "listFiles fe t ow rp p =
           Inl (new_Error (''Failed to list '' @ p @ '': '' @ string_of_nat (status res)))"
  using assms by (simp add: listFiles_def)

lemma getFile_not_ok:
  assumes "fe (get_request t ow rp p) = Inr res" "\<not> ok res"
  shows "getFile fe ab t ow rp p =
           Inl (new_Error (''Failed to get '' @ p @ '': '' @ string_of_nat (status res)))"
  using assms by (simp add: getFile_def)

lemma list_or_empty_not_ok:
  assumes "fetch env (get_request (token c) (owner c) (repo c) p) = Inr res" "\<not> ok res"
  shows "list_or_empty (Suc n) env c p = Some []"
  using assms by (simp add: list_or_empty_def listFiles_not_ok catch_empty_def)

lemma loadFiles_Some:
  assumes "list_or_empty n env c ''src/content/pages'' = Some pages"
    and "list_or_empty n env c ''src/content/posts'' = Some posts"
  shows "loadFiles n env c w =
           Some (w\<lparr>app := (app w)\<lparr>error := None, files := pages @ posts, loading := False\<rparr>\<rparr>)"
  using assms by (simp add: loadFiles_def)

lemma loadFiles_SomeD:
  assumes "loadFiles n env c w = Some w'"
  shows "\<exists>fs. w' = w\<lparr>app := (app w)\<lparr>error := None, files := fs, loading := False\<rparr>\<rparr>"
  using assms by (auto simp add: loadFiles_def Let_def split: option.splits)

text \<open>
  Claim C4. For a path that the store does not have (it answers the request with a
  response that is not \<open>ok\<close>, such as 404): the listing, as \<open>loadFiles\<close> calls it, gives
  the empty list, and \<open>loadFiles\<close> ends with the files of the other directory and without
  an error; the read of a single file throws, and \<open>openFile\<close> puts the error's message
  into \<open>error\<close> and changes nothing else but \<open>loading\<close>.
\<close>

theorem missing_path_listing_and_read:
  assumes "fetch env (get_request (token c) (owner c) (repo c) p) = Inr res" "\<not> ok res"
  shows "list_or_empty (Suc n) env c p = Some []
       \<and> (\<forall>posts. p = ''src/content/pages'' \<and>
            list_or_empty (Suc n) env c ''src/content/posts'' = Some posts \<longrightarrow>
            loadFiles (Suc n) env c w =
              Some (w\<lparr>app := (app w)\<lparr>error := None, files := posts, loading := False\<rparr>\<rparr>))
       \<and> (\<forall>pages. p = ''src/content/posts'' \<and>
            list_or_empty (Suc n) env c ''src/content/pages'' = Some pages \<longrightarrow>
            loadFiles (Suc n) env c w =
              Some (w\<lparr>app := (app w)\<lparr>error := None, files := pages, loading := False\<rparr>\<rparr>))
       \<and> getFile (fetch env) (atob env) (token c) (owner c) (repo c) p
           = Inl (new_Error (''Failed to get '' @ p @ '': '' @ string_of_nat (status res)))
       \<and> (creds (app w) = Some c \<and> rf_path entry = p \<longrightarrow>
            openFile env entry w =
              w\<lparr>app := (app w)
                  \<lparr>error := Some (''Failed to get '' @ p @ '': '' @ string_of_nat (status res)),
                   loading := False\<rparr>\<rparr>)"
proof -
  have l: "list_or_empty (Suc n) env c p = Some []"
    using assms by (rule list_or_empty_not_ok)
  have g: "getFile (fetch env) (atob env) (token c) (owner c) (repo c) p
           = Inl (new_Error (''Failed to get '' @ p @ '': '' @ string_of_nat (status res)))"
    using assms by (rule getFile_not_ok)
  have o: "openFile env entry w =
              w\<lparr>app := (app w)
                  \<lparr>error := Some (''Failed to get '' @ p @ '': '' @ string_of_nat (status res)),
                   loading := False\<rparr>\<rparr>"
    if "creds (app w) = Some c" "rf_path entry = p"
    using that g by (simp add: openFile_failed new_Error_def)
  show ?thesis using l g o by (auto simp add: loadFiles_Some)
qed

theorem missing_path_listing_and_read_witness:
  "loadFiles (Suc 0) (demo_env store_missing) demo_creds browsing
     = Some (browsing\<lparr>app := (app browsing)\<lparr>error := None, files := [], loading := False\<rparr>\<rparr>)
   \<and> openFile (demo_env store_missing) hello browsing
     = browsing\<lparr>app := (app browsing)
         \<lparr>error := Some ''Failed to get src/content/posts/hello.mdx: 404'', loading := False\<rparr>\<rparr>"
proof -
  have r: "fetch (demo_env store_missing) (get_request (token demo_creds) (owner demo_creds) (repo demo_creds) p)
            = Inr \<lparr>ok = False, status = 404, json = JMessage ''Not Found''\<rparr>" for p
    by (simp add: store_missing_def)
  have n: "\<not> ok \<lparr>ok = False, status = 404, json = JMessage ''Not Found''\<rparr>" by simp
  have c: "creds (app browsing) = Some demo_creds" by (simp add: browsing_def)
  have p: "rf_path hello = ''src/content/posts/hello.mdx''" by (simp add: hello_def)
  from missing_path_listing_and_read
         [OF r[of "''src/content/pages''"] n, where n = 0 and w = browsing and entry = hello]
       missing_path_listing_and_read
         [OF r[of "''src/content/posts''"] n, where n = 0 and w = browsing and entry = hello]
       missing_path_listing_and_read
         [OF r[of "''src/content/posts/hello.mdx''"] n, where n = 0 and w = browsing
           and entry = hello] c p
  show ?thesis by (simp add: string_of_nat_404)
qed






lemma openFile_currentSha:
  assumes "creds (app w) = Some c"
    and "getFile (fetch env) (atob env) (token c) (owner c) (repo c) (rf_path entry) = Inr remote"
  shows "currentSha (app (openFile env entry w)) = Some (fc_sha remote)"
  using assms by (simp add: openFile_def Let_def)

lemma session_baseline: "session b w \<Longrightarrow> currentSha (app w) = Some b"
proof (induction rule: session.induct)
  case (opened w c env entry remote)
  then show ?case by (rule openFile_currentSha)
next
  case (autosaved b w now)
  then show ?case by (simp add: autosave_def split: option.splits)
next
  case (committed b w c f env result)
  then show ?case by (simp add: handleCommit_ok)
next
  case (commit_failed b w c f env e)
  then show ?case by (simp add: handleCommit_failed)
qed (simp_all add: onBodyChange_def onFrontmatterChange_def onTabChange_def onPublish_def
      onCancel_def onMessageChange_def dismissError_def)

lemma commit_request_body:
  "req_body (commit_request env c f s) =
     Some \<lparr>pb_message = commitMessage s,
           pb_content = btoa env (utf8_bytes (serializeFile env (frontmatter s) (body s))),
           pb_sha = (case currentSha s of
                       None \<Rightarrow> None
                     | Some t \<Rightarrow> if t \<noteq> [] then Some t else None)\<rparr>"
  by (simp add: commit_request_def put_request_def or_undefined_def split: option.splits)

lemma session_submits_baseline:
  assumes "session b w" "b \<noteq> []"
  shows "map_option pb_sha (req_body (commit_request env c f (app w))) = Some (Some b)"
  using session_baseline[OF assms(1)] assms(2) by (simp add: commit_request_body)

lemma store_ok_write:
  "fetch (demo_env store_ok) (commit_request (demo_env store_ok) demo_creds hello_remote (app editing))
     = Inr \<lparr>ok = True, status = 200,
            json = JWritten \<lparr>content_sha = ''b2'',
                      commit = \<lparr>cr_sha = ''c2'',
                                cr_html_url = ''https://github.com/danrichardson/loomwork/commit/c2''\<rparr>\<rparr>\<rparr>"
  by (simp add: commit_request_editing store_ok_def)

text \<open>
  Claim C1 says that after a successful commit the session is not dirty, the draft store
  has no draft for the session's path, and the baseline is the version token that the store
  returned for the written file. The first two hold (\<open>handleCommit_ok\<close>). The baseline,
  however, becomes the \<open>sha\<close> of the commit, not the \<open>sha\<close> of the written file: here the
  store answers with the file's new sha \<open>b2\<close> and the commit \<open>c2\<close>, and the session ends
  with \<open>c2\<close>.
\<close>

theorem commit_records_the_commit_sha:
  "fetch (demo_env store_ok) (commit_request (demo_env store_ok) demo_creds hello_remote (app editing))
     = Inr \<lparr>ok = True, status = 200,
            json = JWritten \<lparr>content_sha = ''b2'',
                      commit = \<lparr>cr_sha = ''c2'',
                                cr_html_url = ''https://github.com/danrichardson/loomwork/commit/c2''\<rparr>\<rparr>\<rparr>
   \<and> published = handleCommit (demo_env store_ok) editing
   \<and> dirty (app published) = False
   \<and> drafts editing ''src/content/posts/hello.mdx'' = Some hello_draft
   \<and> drafts published ''src/content/posts/hello.mdx'' = None
   \<and> currentSha (app published) = Some ''c2''
   \<and> currentSha (app published) \<noteq> Some ''b2''"
proof -
  have d: "drafts editing ''src/content/posts/hello.mdx'' = Some hello_draft"
    by (simp add: editing_eq)
  have p: "dirty (app published) = False" "drafts published ''src/content/posts/hello.mdx'' = None"
    "currentSha (app published) = Some ''c2''" "currentSha (app published) \<noteq> Some ''b2''"
    by (simp_all add: published_eq)
  show ?thesis by (intro conjI store_ok_write published_def d p)
qed

lemma editing_again_eq:
  "editing_again = published\<lparr>app := (app published)\<lparr>body := ''Newest body'', dirty := True\<rparr>\<rparr>"
  by (simp add: editing_again_def onBodyChange_def)

lemma session_editing_again: "session ''b1'' editing \<and> session ''c2'' editing_again"
proof -
  have c0: "creds (app browsing_with_draft) = Some demo_creds"
    by (simp add: browsing_with_draft_def browsing_def)
  have g: "getFile (fetch (demo_env store_ok)) (atob (demo_env store_ok)) (token demo_creds)
             (owner demo_creds) (repo demo_creds) (rf_path hello) = Inr hello_remote"
    by (simp add: getFile_store_ok)
  have "session (fc_sha hello_remote) (openFile (demo_env store_ok) hello browsing_with_draft)"
    using c0 g by (rule session.opened)
  then have s1: "session ''b1'' editing"
    unfolding editing_def by (simp add: hello_remote_def session.body_changed)
  have c: "creds (app editing) = Some demo_creds" by (simp add: editing_eq)
  have f: "currentFile (app editing) = Some hello_remote" by (simp add: editing_eq)
  have "session (cr_sha \<lparr>cr_sha = ''c2'',
           cr_html_url = ''https://github.com/danrichardson/loomwork/commit/c2''\<rparr>)
          (handleCommit (demo_env store_ok) editing)"
    using s1 c f commit_write_ok by (rule session.committed)
  then have "session ''c2'' published" by (simp add: published_def)
  then have s2: "session ''c2'' editing_again"
    unfolding editing_again_def by (rule session.body_changed)
  show ?thesis using s1 s2 by (rule conjI)
qed

text \<open>
  Claim C6 says that the baseline is the remote file's \<open>sha\<close>, as seen at opening or at
  the last successful commit, and that every commit submits it as the expected version of
  the file. The code does record the file's \<open>sha\<close> at opening (\<open>openFile_currentSha\<close>) and
  does submit what it has recorded (\<open>session_submits_baseline\<close>); but at a successful commit
  it records the \<open>sha\<close> of the commit. Here the store answers the first write with the file's
  new sha \<open>b2\<close> and the commit \<open>c2\<close>: the baseline is \<open>c2\<close> afterwards, and the next
  commit submits \<open>c2\<close> as the version it expects the file to have.
\<close>

theorem next_commit_submits_the_commit_sha:
  "fetch (demo_env store_ok) (commit_request (demo_env store_ok) demo_creds hello_remote (app editing))
     = Inr \<lparr>ok = True, status = 200,
            json = JWritten \<lparr>content_sha = ''b2'',
                      commit = \<lparr>cr_sha = ''c2'',
                                cr_html_url = ''https://github.com/danrichardson/loomwork/commit/c2''\<rparr>\<rparr>\<rparr>
   \<and> editing_again = onBodyChange ''Newest body'' (handleCommit (demo_env store_ok) editing)
   \<and> currentSha (app editing_again) = Some ''c2''
   \<and> req_body (commit_request (demo_env store_ok) demo_creds hello_remote (app editing_again))
     = Some \<lparr>pb_message = ''Update hello.mdx'', pb_content = ''Newest body'',
             pb_sha = Some ''c2''\<rparr>"
proof -
  have e: "editing_again = onBodyChange ''Newest body'' (handleCommit (demo_env store_ok) editing)"
    by (simp add: editing_again_def published_def)
  have cs: "currentSha (app editing_again) = Some ''c2''"
    by (simp add: editing_again_eq published_eq)
  have rb: "req_body (commit_request (demo_env store_ok) demo_creds hello_remote (app editing_again))
     = Some \<lparr>pb_message = ''Update hello.mdx'', pb_content = ''Newest body'',
             pb_sha = Some ''c2''\<rparr>"
    by (simp add: commit_request_body editing_again_eq published_eq utf8_bytes_examples)
  show ?thesis by (intro conjI store_ok_write e cs rb)
qed

lemma goBack_states:
  assumes "w1 \<in> set (after_goBack n env w)"
  shows "\<exists>ld fs. w1 = w\<lparr>app := (app w)
           \<lparr>screen := Browser, currentFile := None, currentSha := None, body := [],
            frontmatter := [], dirty := False, editorTab := Edit, error := None,
            success := None, loading := ld, files := fs\<rparr>\<rparr>"
proof (cases "w1 = goBack w")
  case True
  show ?thesis
  proof (cases "creds (app w)")
    case None
    then have "w1 = w\<lparr>app := (app w)
           \<lparr>screen := Browser, currentFile := None, currentSha := None, body := [],
            frontmatter := [], dirty := False, editorTab := Edit, error := None,
            success := None, loading := loading (app w), files := files (app w)\<rparr>\<rparr>"
      using True by (simp add: goBack_def goBack_patch_def)
    then show ?thesis by blast
  next
    case (Some c)
    then have "w1 = w\<lparr>app := (app w)
           \<lparr>screen := Browser, currentFile := None, currentSha := None, body := [],
            frontmatter := [], dirty := False, editorTab := Edit, error := None,
            success := None, loading := True, files := files (app w)\<rparr>\<rparr>"
      using True by (simp add: goBack_def goBack_patch_def)
    then show ?thesis by blast
  qed
next
  case False
  with assms have l: "goBack_loaded n env w = Some w1"
    by (auto simp add: after_goBack_def split: option.splits)
  show ?thesis
  proof (cases "creds (app w)")
    case None
    then have "w1 = w\<lparr>app := (app w)
           \<lparr>screen := Browser, currentFile := None, currentSha := None, body := [],
            frontmatter := [], dirty := False, editorTab := Edit, error := None,
            success := None, loading := loading (app w), files := files (app w)\<rparr>\<rparr>"
      using l by (simp add: goBack_loaded_def goBack_patch_def)
    then show ?thesis by blast
  next
    case (Some c)
    with l have "loadFiles n env c (goBack_patch w) = Some w1"
      by (simp add: goBack_loaded_def)
    then obtain fs where
      "w1 = (goBack_patch w)\<lparr>app := (app (goBack_patch w))
               \<lparr>error := None, files := fs, loading := False\<rparr>\<rparr>"
      using loadFiles_SomeD by blast
    then have "w1 = w\<lparr>app := (app w)
           \<lparr>screen := Browser, currentFile := None, currentSha := None, body := [],
            frontmatter := [], dirty := False, editorTab := Edit, error := None,
            success := None, loading := False, files := fs\<rparr>\<rparr>"
      by (simp add: goBack_patch_def)
    then show ?thesis by blast
  qed
qed

text \<open>
  Claim C9. In every state that can be seen after \<open>goBack\<close> (when the handler returns, and
  when the file list has come back) the session is reset: not dirty, body and frontmatter
  empty, no baseline, no current file. The draft store is untouched, so opening a path
  whose draft has \<open>savedAt > 0\<close> again shows that draft and a dirty session.
\<close>

theorem goBack_keeps_draft:
  assumes "w1 \<in> set (after_goBack n env w)"
  shows "dirty (app w1) = False \<and> body (app w1) = [] \<and> frontmatter (app w1) = []
       \<and> currentSha (app w1) = None \<and> currentFile (app w1) = None
       \<and> drafts w1 = drafts w
       \<and> (\<forall>c d remote.
            creds (app w) = Some c \<and> drafts w (rf_path entry) = Some d \<and> 0 < savedAt d \<and>
            getFile (fetch env') (atob env') (token c) (owner c) (repo c) (rf_path entry)
              = Inr remote \<longrightarrow>
            body (app (openFile env' entry w1)) = d_content d
          \<and> frontmatter (app (openFile env' entry w1)) = d_frontmatter d
          \<and> dirty (app (openFile env' entry w1)))"
proof -
  from goBack_states[OF assms] obtain ld fs where
    w1: "w1 = w\<lparr>app := (app w)
           \<lparr>screen := Browser, currentFile := None, currentSha := None, body := [],
            frontmatter := [], dirty := False, editorTab := Edit, error := None,
            success := None, loading := ld, files := fs\<rparr>\<rparr>"
    by blast
  have o: "body (app (openFile env' entry w1)) = d_content d
          \<and> frontmatter (app (openFile env' entry w1)) = d_frontmatter d
          \<and> dirty (app (openFile env' entry w1))"
    if "creds (app w) = Some c" "drafts w (rf_path entry) = Some d" "0 < savedAt d"
      "getFile (fetch env') (atob env') (token c) (owner c) (repo c) (rf_path entry) = Inr remote"
    for c d remote
  proof -
    have c1: "creds (app w1) = Some c" using that(1) by (simp add: w1)
    have d1: "drafts w1 (rf_path entry) = Some d" using that(2) by (simp add: w1)
    show ?thesis by (simp add: openFile_draft[OF c1 that(4) d1 that(3)])
  qed
  have "dirty (app w1) = False \<and> body (app w1) = [] \<and> frontmatter (app w1) = []
       \<and> currentSha (app w1) = None \<and> currentFile (app w1) = None \<and> drafts w1 = drafts w"
    by (simp add: w1)
  then show ?thesis using o by blast
qed

theorem goBack_keeps_draft_witness:
  "dirty (app (goBack editing)) = False \<and> body (app (goBack editing)) = []
   \<and> frontmatter (app (goBack editing)) = [] \<and> currentSha (app (goBack editing)) = None
   \<and> drafts (goBack editing) = [''src/content/posts/hello.mdx'' \<mapsto> hello_draft]
   \<and> body (app (openFile (demo_env store_ok) hello (goBack editing))) = ''New body''
   \<and> frontmatter (app (openFile (demo_env store_ok) hello (goBack editing)))
       = [(''title'', JString ''Hello'')]
   \<and> dirty (app (openFile (demo_env store_ok) hello (goBack editing)))"
proof -
  have m: "goBack editing \<in> set (after_goBack 1 (demo_env store_missing) editing)"
    by (simp add: after_goBack_def)
  have c: "creds (app editing) = Some demo_creds" by (simp add: editing_eq)
  have d: "drafts editing (rf_path hello) = Some hello_draft" by (simp add: editing_eq hello_def)
  have s: "0 < savedAt hello_draft" by (simp add: hello_draft_def)
  have g: "getFile (fetch (demo_env store_ok)) (atob (demo_env store_ok)) (token demo_creds)
             (owner demo_creds) (repo demo_creds) (rf_path hello) = Inr hello_remote"
    by (simp add: getFile_store_ok)
  from goBack_keeps_draft[OF m, where entry = hello and env' = "demo_env store_ok"] c d s g
  have "dirty (app (goBack editing)) = False \<and> body (app (goBack editing)) = []
       \<and> frontmatter (app (goBack editing)) = [] \<and> currentSha (app (goBack editing)) = None
       \<and> drafts (goBack editing) = drafts editing
       \<and> body (app (openFile (demo_env store_ok) hello (goBack editing))) = d_content hello_draft
       \<and> frontmatter (app (openFile (demo_env store_ok) hello (goBack editing)))
           = d_frontmatter hello_draft
       \<and> dirty (app (openFile (demo_env store_ok) hello (goBack editing)))"
    by blast
  then show ?thesis by (simp add: editing_eq hello_draft_def)
qed


end
